theory Spec2Isabelle
  imports Main
begin

section \<open>The route handler of \<open>src/app/api/users/[id]/posts/route.js\<close>\<close>

text \<open>
  The repository's only executable unit is the asynchronous handler
  \<^verbatim>\<open>
  export const GET = async (req, { params }) => {
    try {
      await connectToDB();
      const prompts = await Prompt.find({ creator: params.id }).populate("creator");
      return new Response(JSON.stringify(prompts), { status: 200 });
    } catch (error) {
      return new Response("Failed to create a new prompt", { status: 500 });
    }
  };
  \<close>
  Each \<open>await\<close> is a sequencing point that either yields a value or throws; a thrown
  value is the \<open>Inl\<close> of a sum, and the state of the outside world (the document store
  and the process-wide connection) is passed explicitly.
\<close>

subsection \<open>Values\<close>

text \<open>Documents as they reach \<open>JSON.stringify\<close>: trees of null, booleans, numbers,
  strings, arrays and objects. An object is the list of its properties in the order in
  which the platform enumerates them (keys that are array indices first, in ascending
  order, then the other keys in the order of their creation). A number \<open>JNum n\<close> is an
  integer of magnitude below \<open>2^53\<close>, which the platform holds exactly and prints in
  plain decimal; numbers with a fraction or an exponent are left out.\<close>

datatype json =
    JNull
  | JBool bool
  | JNum int
  | JStr string
  | JArr "json list"
  | JObj "(string \<times> json) list"

text \<open>A thrown value: an \<open>Error\<close> with its message.\<close>

datatype exn = Error string

subsection \<open>Request, context and response\<close>

text \<open>The first argument \<open>req\<close> of the handler.\<close>

record request =
  req_method :: string
  req_url :: string
  req_headers :: "(string \<times> string) list"
  req_body :: string

text \<open>The second argument is destructured as \<open>{ params }\<close> in the parameter list,
  before the \<open>try\<close> block is entered; the framework always passes it, and the route
  segment \<open>[id]\<close> binds \<open>params.id\<close> to the string found in the path.\<close>

record route_params =
  id' :: string

record route_context =
  params :: route_params

text \<open>The init object of \<open>new Response(body, init)\<close>: the handler writes only
  \<open>status\<close>, so \<open>init_headers\<close> is empty at both of its call sites.\<close>

record response_init =
  init_status :: nat
  init_headers :: "(string \<times> string) list"

record response =
  body :: string
  status :: nat
  headers :: "(string \<times> string) list"

text \<open>The constructor \<open>new Response(body, init)\<close> for a string body, after the Fetch
  standard: the body is taken as text, and when the init's headers hold no
  \<open>Content-Type\<close> the response gets the one extracted from the body, which for a string
  is \<open>text/plain;charset=UTF-8\<close>. Header names are kept in lower case.\<close>

definition Response :: "string \<Rightarrow> response_init \<Rightarrow> response" where
  "Response b init =
     \<lparr>body = b,
      status = init_status init,
      headers =
        (if ''content-type'' \<in> fst ` set (init_headers init) then init_headers init
         else init_headers init @ [(''content-type'', ''text/plain;charset=UTF-8'')])\<rparr>"

subsection \<open>The query object\<close>

text \<open>\<open>Prompt.find(filter)\<close> builds a query holding the filter object;
  \<open>.populate(path)\<close> adds a path to dereference. Nothing runs until the query is
  awaited.\<close>

record query =
  conditions :: "(string \<times> string) list"
  populated :: "string list"

definition Prompt_find :: "(string \<times> string) list \<Rightarrow> query" where
  "Prompt_find filter' = \<lparr>conditions = filter', populated = []\<rparr>"

definition populate :: "query \<Rightarrow> string \<Rightarrow> query" where
  "populate q path = q\<lparr>populated := populated q @ [path]\<rparr>"

subsection \<open>The collaborators the handler imports\<close>

text \<open>\<open>connectToDB\<close> (from \<open>@utlis/database\<close>), the execution of an awaited query of
  the \<open>Prompt\<close> model (from \<open>@models/prompt\<close>) and \<open>JSON.stringify\<close> are not part of
  the handler's file. The handler is therefore written over any behaviour of theirs:
  each may return or throw, and the first two may change the state \<open>'st\<close> of the world
  whether they return or throw.\<close>

record 'st collaborators =
  connectToDB :: "'st \<Rightarrow> (exn + unit) \<times> 'st"
  exec :: "query \<Rightarrow> 'st \<Rightarrow> (exn + json list) \<times> 'st"
  JSON_stringify :: "json \<Rightarrow> exn + string"

subsection \<open>The handler\<close>

text \<open>The query of line 7: the filter object \<open>{ creator: params.id }\<close>, populated on
  \<open>"creator"\<close>.\<close>

definition GET_query :: "'c route_context_scheme \<Rightarrow> query" where
  "GET_query ctx = populate (Prompt_find [(''creator'', id' (params ctx))]) ''creator''"

text \<open>The body of the \<open>try\<close> block (lines 6 to 10): the first statement that throws ends
  the block with the thrown value.\<close>

definition try_block ::
  "('st, 'a) collaborators_scheme \<Rightarrow> 'c route_context_scheme \<Rightarrow> 'st \<Rightarrow> (exn + response) \<times> 'st" where
  "try_block P ctx s =
     (case connectToDB P s of
        (Inl e, s1) \<Rightarrow> (Inl e, s1)
      | (Inr _, s1) \<Rightarrow>
          (case exec P (GET_query ctx) s1 of
             (Inl e, s2) \<Rightarrow> (Inl e, s2)
           | (Inr prompts, s2) \<Rightarrow>
               (case JSON_stringify P (JArr prompts) of
                  Inl e \<Rightarrow> (Inl e, s2)
                | Inr text \<Rightarrow>
                    (Inr (Response text \<lparr>init_status = 200, init_headers = []\<rparr>), s2))))"

text \<open>The handler: the \<open>catch\<close> clause (lines 11 to 13) turns every thrown value into
  the same response. The argument \<open>req\<close> is bound and never read.\<close>

definition GET ::
  "('st, 'a) collaborators_scheme \<Rightarrow> 'r request_scheme \<Rightarrow> 'c route_context_scheme \<Rightarrow> 'st
     \<Rightarrow> response \<times> 'st" where
  "GET P req ctx s =
     (case try_block P ctx s of
        (Inr r, s') \<Rightarrow> (r, s')
      | (Inl error, s') \<Rightarrow>
          (Response ''Failed to create a new prompt''
             \<lparr>init_status = 500, init_headers = []\<rparr>, s'))"

section \<open>The platform's serializer\<close>

text \<open>\<open>JSON.stringify\<close> on the values above, without indentation: the text the platform
  produces for a tree of null, booleans, integers, strings, arrays and objects. It
  cannot throw on such a tree.\<close>

definition hex_digit :: "nat \<Rightarrow> char" where
  "hex_digit n = ''0123456789abcdef'' ! (n mod 16)"

text \<open>One character inside a quoted string: the quote, the backslash and the control
  characters below U+0020 are escaped, the five short escapes first.\<close>

definition escape_char :: "char \<Rightarrow> string" where
  "escape_char c =
     (if c = CHR 0x08 then [CHR 0x5C, CHR ''b'']
      else if c = CHR 0x09 then [CHR 0x5C, CHR ''t'']
      else if c = CHR 0x0A then [CHR 0x5C, CHR ''n'']
      else if c = CHR 0x0C then [CHR 0x5C, CHR ''f'']
      else if c = CHR 0x0D then [CHR 0x5C, CHR ''r'']
      else if c = CHR 0x22 then [CHR 0x5C, CHR 0x22]
      else if c = CHR 0x5C then [CHR 0x5C, CHR 0x5C]
      else if (of_char c :: nat) < 0x20 then
        [CHR 0x5C, CHR ''u'', CHR ''0'', CHR ''0'',
         hex_digit (of_char c div 16), hex_digit (of_char c mod 16)]
      else [c])"

definition QuoteJSONString :: "string \<Rightarrow> string" where
  "QuoteJSONString str = [CHR 0x22] @ concat (map escape_char str) @ [CHR 0x22]"

text \<open>An integer in decimal, with a minus sign when negative.\<close>

fun digits :: "nat \<Rightarrow> string" where
  "digits n = (if n < 10 then [hex_digit n] else digits (n div 10) @ [hex_digit (n mod 10)])"

declare digits.simps [simp del]

definition number_text :: "int \<Rightarrow> string" where
  "number_text i = (if i < 0 then CHR ''-'' # digits (nat (- i)) else digits (nat i))"

fun join_comma :: "string list \<Rightarrow> string" where
  "join_comma [] = []"
| "join_comma [x] = x"
| "join_comma (x # y # ys) = x @ '','' @ join_comma (y # ys)"

fun stringify :: "json \<Rightarrow> string" where
  "stringify JNull = ''null''"
| "stringify (JBool b) = (if b then ''true'' else ''false'')"
| "stringify (JNum n) = number_text n"
| "stringify (JStr str) = QuoteJSONString str"
| "stringify (JArr xs) = ''['' @ join_comma (map stringify xs) @ '']''"
| "stringify (JObj kvs) =
     ''{'' @ join_comma (map (\<lambda>kv. QuoteJSONString (fst kv) @ '':'' @ stringify (snd kv)) kvs)
       @ ''}''"

section \<open>Reading a serialized text\<close>

text \<open>What it means for a body to be the JSON text of a value: \<open>decode\<close> reads a
  compact JSON text (no white space, the escapes above) back into the value it
  denotes, and is \<open>None\<close> on any other string. It is used to state what a response
  body holds; the handler does not call it.\<close>

definition hex_value :: "char \<Rightarrow> nat option" where
  "hex_value c = map_of (zip ''0123456789abcdef'' [0 ..< 16]) c"

definition is_digit :: "char \<Rightarrow> bool" where
  "is_digit c = (c \<in> set ''0123456789'')"

text \<open>The characters of a string up to its closing quote, escapes undone, and the text
  after the quote.\<close>

fun read_string :: "string \<Rightarrow> (string \<times> string) option" where
  "read_string [] = None"
| "read_string (c # cs) =
     (if c = CHR 0x22 then Some ([], cs)
      else if c = CHR 0x5C then
        (case cs of
           [] \<Rightarrow> None
         | e # r \<Rightarrow>
             if e = CHR ''u'' then
               (case r of
                  z1 # z2 # h1 # h2 # r' \<Rightarrow>
                    (case (hex_value h1, hex_value h2) of
                       (Some a, Some b) \<Rightarrow>
                         if z1 = CHR ''0'' \<and> z2 = CHR ''0'' then
                           map_option (\<lambda>p. (char_of (16 * a + b) # fst p, snd p)) (read_string r')
                         else None
                     | _ \<Rightarrow> None)
                | _ \<Rightarrow> None)
             else
               (case map_of [(CHR ''b'', CHR 0x08), (CHR ''t'', CHR 0x09), (CHR ''n'', CHR 0x0A),
                             (CHR ''f'', CHR 0x0C), (CHR ''r'', CHR 0x0D), (CHR 0x22, CHR 0x22),
                             (CHR 0x5C, CHR 0x5C)] e of
                  None \<Rightarrow> None
                | Some d \<Rightarrow> map_option (\<lambda>p. (d # fst p, snd p)) (read_string r)))
      else if (of_char c :: nat) < 0x20 then None
      else map_option (\<lambda>p. (c # fst p, snd p)) (read_string cs))"

text \<open>A run of decimal digits, read from the left.\<close>

fun read_digits :: "nat \<Rightarrow> string \<Rightarrow> nat \<times> string" where
  "read_digits acc [] = (acc, [])"
| "read_digits acc (c # cs) =
     (if is_digit c then read_digits (10 * acc + (of_char c - 48)) cs else (acc, c # cs))"

text \<open>A natural number in decimal: at least one digit, and no leading zero before
  another digit.\<close>

definition read_natural :: "string \<Rightarrow> (nat \<times> string) option" where
  "read_natural s =
     (case s of
        [] \<Rightarrow> None
      | d # ds \<Rightarrow>
          if \<not> is_digit d then None
          else if d = CHR ''0'' \<and> (case ds of [] \<Rightarrow> False | e # _ \<Rightarrow> is_digit e) then None
          else Some (read_digits 0 s))"

definition read_number :: "string \<Rightarrow> (int \<times> string) option" where
  "read_number s =
     (case s of
        [] \<Rightarrow> None
      | c # cs \<Rightarrow>
          if c = CHR ''-'' then map_option (\<lambda>p. (- int (fst p), snd p)) (read_natural cs)
          else map_option (\<lambda>p. (int (fst p), snd p)) (read_natural s))"

text \<open>The text after a given prefix.\<close>

definition strip_prefix :: "string \<Rightarrow> string \<Rightarrow> string option" where
  "strip_prefix p s = (if take (length p) s = p then Some (drop (length p) s) else None)"

text \<open>A value, the elements of an array after its opening bracket and the members of
  an object after its opening brace, each with the text that follows. The first
  argument bounds the nesting and the number of elements read; \<open>decode\<close> gives it
  more than the length of the text, which is enough for every text the serializer
  writes.\<close>

fun decode_value :: "nat \<Rightarrow> string \<Rightarrow> (json \<times> string) option"
  and decode_elements :: "nat \<Rightarrow> string \<Rightarrow> (json list \<times> string) option"
  and decode_members :: "nat \<Rightarrow> string \<Rightarrow> ((string \<times> json) list \<times> string) option" where
  "decode_value 0 s = None"
| "decode_value (Suc n) [] = None"
| "decode_value (Suc n) (c # cs) =
     (if c = CHR ''-'' \<or> is_digit c then
        map_option (\<lambda>p. (JNum (fst p), snd p)) (read_number (c # cs))
      else if c = CHR ''n'' then map_option (Pair JNull) (strip_prefix ''ull'' cs)
      else if c = CHR ''t'' then map_option (Pair (JBool True)) (strip_prefix ''rue'' cs)
      else if c = CHR ''f'' then map_option (Pair (JBool False)) (strip_prefix ''alse'' cs)
      else if c = CHR 0x22 then map_option (\<lambda>p. (JStr (fst p), snd p)) (read_string cs)
      else if c = CHR ''['' then
        (case strip_prefix '']'' cs of
           Some r \<Rightarrow> Some (JArr [], r)
         | None \<Rightarrow> map_option (\<lambda>p. (JArr (fst p), snd p)) (decode_elements n cs))
      else if c = CHR ''{'' then
        (case strip_prefix ''}'' cs of
           Some r \<Rightarrow> Some (JObj [], r)
         | None \<Rightarrow> map_option (\<lambda>p. (JObj (fst p), snd p)) (decode_members n cs))
      else None)"
| "decode_elements 0 s = None"
| "decode_elements (Suc n) s =
     (case decode_value n s of
        None \<Rightarrow> None
      | Some (v, r) \<Rightarrow>
          (case r of
             [] \<Rightarrow> None
           | c # r' \<Rightarrow>
               if c = CHR '','' then
                 map_option (\<lambda>p. (v # fst p, snd p)) (decode_elements n r')
               else if c = CHR '']'' then Some ([v], r')
               else None))"
| "decode_members 0 s = None"
| "decode_members (Suc n) s =
     (case strip_prefix [CHR 0x22] s of
        None \<Rightarrow> None
      | Some s1 \<Rightarrow>
          (case read_string s1 of
             None \<Rightarrow> None
           | Some (k, s2) \<Rightarrow>
               (case strip_prefix '':'' s2 of
                  None \<Rightarrow> None
                | Some s3 \<Rightarrow>
                    (case decode_value n s3 of
                       None \<Rightarrow> None
                     | Some (v, r) \<Rightarrow>
                         (case r of
                            [] \<Rightarrow> None
                          | c # r' \<Rightarrow>
                              if c = CHR '','' then
                                map_option (\<lambda>p. ((k, v) # fst p, snd p)) (decode_members n r')
                              else if c = CHR ''}'' then Some ([(k, v)], r')
                              else None)))))"

definition decode :: "string \<Rightarrow> json option" where
  "decode s =
     (case decode_value (Suc (length s)) s of
        Some (j, []) \<Rightarrow> Some j
      | _ \<Rightarrow> None)"

text \<open>A text may follow a number when it does not start with a digit.\<close>

definition delimited :: "string \<Rightarrow> bool" where
  "delimited r = (case r of [] \<Rightarrow> True | c # _ \<Rightarrow> \<not> is_digit c)"

text \<open>The text of one member of an object.\<close>

definition member_text :: "string \<times> json \<Rightarrow> string" where
  "member_text kv = QuoteJSONString (fst kv) @ '':'' @ stringify (snd kv)"


section \<open>The document store\<close>

text \<open>Modelled from the spec: the document store behind \<open>connectToDB\<close> and the
  \<open>Prompt\<close> model, whose files (\<open>@utlis/database\<close>, \<open>@models/prompt\<close>) are missing.
  It holds the Item collection (\<open>prompts\<close>, in the order the store returns them) and
  the Owner collection (\<open>users\<close>), the process-wide connection (\<open>isConnected\<close>),
  whether a connection can be established (\<open>reachable\<close>) and which queries the store
  fails to run (\<open>failing\<close>).\<close>

record store =
  prompts :: "json list"
  users :: "json list"
  isConnected :: bool
  reachable :: bool
  failing :: "query \<Rightarrow> bool"

text \<open>Modelled from the spec: reading and replacing a field of a document, as the
  filter and the dereference step of the missing \<open>Prompt\<close> model need them. \<open>field\<close>
  is \<open>None\<close> where the document has no such field or is not an object.\<close>

fun field :: "string \<Rightarrow> json \<Rightarrow> json option" where
  "field k (JObj kvs) = map_of kvs k"
| "field k _ = None"

fun set_field :: "string \<Rightarrow> json \<Rightarrow> json \<Rightarrow> json" where
  "set_field k v (JObj kvs) = JObj (map (\<lambda>kv. if fst kv = k then (k, v) else kv) kvs)"
| "set_field k v d = d"

text \<open>Modelled from the spec: the filter of \<open>find\<close>, missing with the \<open>Prompt\<close> model.
  A document matches when each filtered field equals the given identifier.\<close>

definition matches :: "(string \<times> string) list \<Rightarrow> json \<Rightarrow> bool" where
  "matches conds d = list_all (\<lambda>c. field (fst c) d = Some (JStr (snd c))) conds"

text \<open>Modelled from the spec: the Owner an identifier refers to, missing with the
  models. It is the Owner document whose \<open>_id\<close> is the identifier.\<close>

definition find_owner :: "'a store_scheme \<Rightarrow> string \<Rightarrow> json option" where
  "find_owner s oid = List.find (\<lambda>u. field ''_id'' u = Some (JStr oid)) (users s)"

text \<open>Modelled from the spec: the dereference step of \<open>populate\<close>, missing with the
  \<open>Prompt\<close> model. The bare identifier in the foreign-key field is replaced by the
  Owner document it refers to. The spec leaves open what an identifier that resolves
  to no Owner becomes; it becomes \<open>null\<close> here.\<close>

definition populate_doc :: "'a store_scheme \<Rightarrow> string \<Rightarrow> json \<Rightarrow> json" where
  "populate_doc s path d =
     (case field path d of
        Some (JStr oid) \<Rightarrow>
          set_field path (case find_owner s oid of Some u \<Rightarrow> u | None \<Rightarrow> JNull) d
      | _ \<Rightarrow> d)"

text \<open>Modelled from the spec: what an awaited query returns, missing with the
  \<open>Prompt\<close> model. All Items matching the filter, in the store's order, each with the
  populated paths dereferenced.\<close>

definition run_query :: "'a store_scheme \<Rightarrow> query \<Rightarrow> json list" where
  "run_query s q =
     map (\<lambda>d. fold (populate_doc s) (populated q) d) (filter (matches (conditions q)) (prompts s))"

text \<open>Modelled from the spec: \<open>connectToDB\<close>, whose file is missing. It ensures a live
  connection: nothing happens when already connected, a connection is established when
  the store can be reached, and it throws otherwise.\<close>

definition db_connectToDB :: "'a store_scheme \<Rightarrow> (exn + unit) \<times> 'a store_scheme" where
  "db_connectToDB s =
     (if isConnected s then (Inr (), s)
      else if reachable s then (Inr (), s\<lparr>isConnected := True\<rparr>)
      else (Inl (Error ''connection failed''), s))"

text \<open>Modelled from the spec: awaiting a query of the \<open>Prompt\<close> model, whose file is
  missing. A read: it throws for a query the store fails to run and returns the
  matching, populated Items otherwise, leaving the store as it was.\<close>

definition db_exec :: "query \<Rightarrow> 'a store_scheme \<Rightarrow> (exn + json list) \<times> 'a store_scheme" where
  "db_exec q s =
     (if failing s q then (Inl (Error ''query failed''), s) else (Inr (run_query s q), s))"

text \<open>Modelled from the spec: the handler's collaborators over the document store.\<close>

definition db :: "'a store_scheme collaborators" where
  "db = \<lparr>connectToDB = db_connectToDB, exec = db_exec, JSON_stringify = (\<lambda>j. Inr (stringify j))\<rparr>"

text \<open>The Items of the store whose \<open>creator\<close> is the given identifier.\<close>

definition items_of :: "'a store_scheme \<Rightarrow> string \<Rightarrow> json list" where
  "items_of s i = filter (\<lambda>d. field ''creator'' d = Some (JStr i)) (prompts s)"

text \<open>The Owner of the spec's example scenario.\<close>

definition alice :: json where
  "alice = JObj [(''_id'', JStr ''u1''), (''name'', JStr ''Alice'')]"

text \<open>A request and the contexts of the paths \<open>/api/users/u1/posts\<close> and
  \<open>/api/users/u3/posts\<close>.\<close>

definition example_request :: request where
  "example_request =
     \<lparr>req_method = ''GET'', req_url = ''/api/users/u1/posts'', req_headers = [], req_body = []\<rparr>"

definition context_u1 :: route_context where
  "context_u1 = \<lparr>params = \<lparr>id' = ''u1''\<rparr>\<rparr>"

definition context_u3 :: route_context where
  "context_u3 = \<lparr>params = \<lparr>id' = ''u3''\<rparr>\<rparr>"

text \<open>The store of the spec's example scenario: three Items, two of them of Owner
  \<open>u1\<close>, and the Owner \<open>u1\<close>; not yet connected, reachable, no failing query.\<close>

definition example_store :: store where
  "example_store =
     \<lparr>prompts =
        [JObj [(''_id'', JStr ''p1''), (''creator'', JStr ''u1''), (''content'', JStr ''hi'')],
         JObj [(''_id'', JStr ''p2''), (''creator'', JStr ''u1''), (''content'', JStr ''yo'')],
         JObj [(''_id'', JStr ''p3''), (''creator'', JStr ''u2''), (''content'', JStr ''x'')]],
      users = [alice],
      isConnected = False,
      reachable = True,
      failing = (\<lambda>q. False)\<rparr>"

text \<open>The same store with its Items in the opposite order.\<close>

definition reversed_store :: store where
  "reversed_store = example_store\<lparr>prompts := rev (prompts example_store)\<rparr>"

section \<open>Properties of the handler\<close>

text \<open>
  Claim C9. For every invocation, whatever the collaborators do, the status code of the
  response returned by the handler is either 200 or 500; no other status code (in
  particular no 400) is ever produced.
\<close>

theorem GET_status_200_or_500:
  "status (fst (GET P req ctx s)) = 200 \<or> status (fst (GET P req ctx s)) = 500"
  by (simp add: GET_def try_block_def Response_def split: prod.split sum.split)

text \<open>
  Claim C2. Every failure during connection, query or serialization is caught at the
  handler boundary. Whichever of \<open>connectToDB\<close>, the awaited query or
  \<open>JSON.stringify\<close> throws, and whatever it throws, the handler returns a response
  (it does not throw itself): status 500, the fixed plain-text body
  \<open>Failed to create a new prompt\<close>, and nothing of the query's result. The response is
  the same value for the three kinds of failure, so a caller cannot tell them apart.
\<close>

theorem GET_catches_every_failure:
  assumes c: "connectToDB P s = (c, s1)"
    and q: "exec P (GET_query ctx) s1 = (q, s2)"
    and failed: "(\<exists>e. c = Inl e) \<or> (\<exists>e. q = Inl e)
                 \<or> (\<exists>docs e. q = Inr docs \<and> JSON_stringify P (JArr docs) = Inl e)"
  shows "fst (GET P req ctx s) =
           \<lparr>body = ''Failed to create a new prompt'', status = 500,
            headers = [(''content-type'', ''text/plain;charset=UTF-8'')]\<rparr>"
  using failed
  by (cases c; cases q) (auto simp: GET_def try_block_def Response_def c q)

text \<open>The three failures at concrete inputs: an unreachable store, a store that fails
  every query, and a serializer that throws.\<close>

theorem GET_catches_every_failure_witness:
  "fst (GET db example_request context_u1 (example_store\<lparr>reachable := False\<rparr>)) =
     \<lparr>body = ''Failed to create a new prompt'', status = 500,
      headers = [(''content-type'', ''text/plain;charset=UTF-8'')]\<rparr>
   \<and> fst (GET db example_request context_u1 (example_store\<lparr>failing := (\<lambda>q. True)\<rparr>)) =
     \<lparr>body = ''Failed to create a new prompt'', status = 500,
      headers = [(''content-type'', ''text/plain;charset=UTF-8'')]\<rparr>
   \<and> fst (GET (db\<lparr>JSON_stringify := (\<lambda>j. Inl (Error ''cyclic object value''))\<rparr>)
             example_request context_u1 example_store) =
     \<lparr>body = ''Failed to create a new prompt'', status = 500,
      headers = [(''content-type'', ''text/plain;charset=UTF-8'')]\<rparr>"
proof (intro conjI)
  let ?s1 = "example_store\<lparr>reachable := False\<rparr>"
  have c1: "connectToDB db ?s1 = (Inl (Error ''connection failed''), ?s1)"
    by (simp add: db_def db_connectToDB_def example_store_def)
  obtain q s2 where q1: "exec db (GET_query context_u1) ?s1 = (q, s2)"
    by (cases "exec db (GET_query context_u1) ?s1")
  show "fst (GET db example_request context_u1 ?s1) =
     \<lparr>body = ''Failed to create a new prompt'', status = 500,
      headers = [(''content-type'', ''text/plain;charset=UTF-8'')]\<rparr>"
    using GET_catches_every_failure [OF c1 q1] by simp
next
  let ?s = "example_store\<lparr>failing := (\<lambda>q. True)\<rparr>"
  let ?s1 = "?s\<lparr>isConnected := True\<rparr>"
  have c: "connectToDB db ?s = (Inr (), ?s1)"
    by (simp add: db_def db_connectToDB_def example_store_def)
  have q: "exec db (GET_query context_u1) ?s1 = (Inl (Error ''query failed''), ?s1)"
    by (simp add: db_def db_exec_def example_store_def)
  show "fst (GET db example_request context_u1 ?s) =
     \<lparr>body = ''Failed to create a new prompt'', status = 500,
      headers = [(''content-type'', ''text/plain;charset=UTF-8'')]\<rparr>"
    using GET_catches_every_failure [OF c q] by simp
next
  let ?P = "db\<lparr>JSON_stringify := (\<lambda>j. Inl (Error ''cyclic object value''))\<rparr>"
  let ?s1 = "example_store\<lparr>isConnected := True\<rparr>"
  have c: "connectToDB ?P example_store = (Inr (), ?s1)"
    by (simp add: db_def db_connectToDB_def example_store_def)
  have q: "exec ?P (GET_query context_u1) ?s1 = (Inr (run_query ?s1 (GET_query context_u1)), ?s1)"
    by (simp add: db_def db_exec_def example_store_def)
  show "fst (GET ?P example_request context_u1 example_store) =
     \<lparr>body = ''Failed to create a new prompt'', status = 500,
      headers = [(''content-type'', ''text/plain;charset=UTF-8'')]\<rparr>"
    using GET_catches_every_failure [OF c q] by simp
qed

text \<open>
  Claim C4, as stated: every successful (HTTP 200) response carries the header
  \<open>Content-Type: application/json\<close>. The handler passes only \<open>status\<close> to the
  \<open>Response\<close> constructor; on the example store the response for \<open>u1\<close> has status 200
  and its \<open>Content-Type\<close> is not \<open>application/json\<close>.
\<close>

theorem GET_content_type_counterexample:
  "status (fst (GET db example_request context_u1 example_store)) = 200
   \<and> map_of (headers (fst (GET db example_request context_u1 example_store))) ''content-type''
       \<noteq> Some ''application/json''"
  by (simp add: GET_def try_block_def Response_def db_def db_connectToDB_def db_exec_def
      example_store_def)

text \<open>
  Claim C4, amended. Every successful (HTTP 200) response carries exactly one header,
  the \<open>Content-Type: text/plain;charset=UTF-8\<close> that the \<open>Response\<close> constructor gives
  a string body when the handler sets no header of its own.
\<close>

theorem GET_success_content_type:
  "status (fst (GET P req ctx s)) = 200 \<Longrightarrow>
   headers (fst (GET P req ctx s)) = [(''content-type'', ''text/plain;charset=UTF-8'')]"
  by (simp add: GET_def try_block_def Response_def split: prod.split sum.split)

theorem GET_success_content_type_witness:
  "status (fst (GET db example_request context_u1 example_store)) = 200
   \<and> headers (fst (GET db example_request context_u1 example_store)) =
       [(''content-type'', ''text/plain;charset=UTF-8'')]"
proof -
  have h: "status (fst (GET db example_request context_u1 example_store)) = 200"
    by (simp add: GET_def try_block_def Response_def db_def db_connectToDB_def db_exec_def
        example_store_def)
  show ?thesis using h GET_success_content_type [OF h] by simp
qed

text \<open>
  Claim C10. The response (and the state left behind) depends only on \<open>params.id\<close>,
  the collaborators and the store state: two invocations whose contexts carry the same
  \<open>params.id\<close> give the same result whatever their request objects (method, headers,
  body) are, since \<open>req\<close> is never read.
\<close>

theorem GET_ignores_request:
  "id' (params ctx1) = id' (params ctx2) \<Longrightarrow> GET P req1 ctx1 s = GET P req2 ctx2 s"
proof -
  assume "id' (params ctx1) = id' (params ctx2)"
  then have same: "GET_query ctx1 = GET_query ctx2"
    by (simp add: GET_query_def)
  show ?thesis
    unfolding GET_def try_block_def same ..
qed

theorem GET_ignores_request_witness:
  "GET db example_request context_u1 example_store =
   GET db \<lparr>req_method = ''POST'', req_url = ''/other'', req_headers = [(''accept'', ''text/html'')],
           req_body = ''ignored''\<rparr>
       \<lparr>params = \<lparr>id' = ''u1''\<rparr>\<rparr> example_store"
proof -
  have h: "id' (params context_u1) = id' (params \<lparr>params = \<lparr>id' = ''u1''\<rparr>\<rparr>)"
    by (simp add: context_u1_def)
  show ?thesis by (rule GET_ignores_request [OF h])
qed

section \<open>The handler over the document store\<close>

subsection \<open>Auxiliary facts\<close>

lemma field_set_field:
  "field k d = Some v \<Longrightarrow> field k (set_field k w d) = Some w"
proof (cases d)
  case (JObj kvs)
  assume "field k d = Some v"
  with JObj have "map_of kvs k = Some v" by simp
  then have "map_of (map (\<lambda>kv. if fst kv = k then (k, w) else kv) kvs) k = Some w"
    by (induction kvs) (auto split: if_splits)
  with JObj show ?thesis by simp
qed simp_all

lemma GET_query_eq:
  "GET_query ctx = \<lparr>conditions = [(''creator'', id' (params ctx))], populated = [''creator'']\<rparr>"
  by (simp add: GET_query_def populate_def Prompt_find_def)

lemma matches_creator:
  "matches [(''creator'', i)] = (\<lambda>d. field ''creator'' d = Some (JStr i))"
  by (simp add: fun_eq_iff matches_def)

lemma run_query_items_of:
  "run_query s (GET_query ctx) =
     map (populate_doc s ''creator'') (items_of s (id' (params ctx)))"
  by (simp add: GET_query_eq run_query_def items_of_def matches_creator)

lemma populate_doc_item:
  assumes "find_owner s i = Some owner" and "d \<in> set (items_of s i)"
  shows "populate_doc s ''creator'' d = set_field ''creator'' owner d"
  using assms by (simp add: populate_doc_def items_of_def)

lemma run_query_GET_query:
  assumes "find_owner s (id' (params ctx)) = Some owner"
  shows "run_query s (GET_query ctx) =
           map (set_field ''creator'' owner) (items_of s (id' (params ctx)))"
  unfolding run_query_items_of
  by (rule map_cong [OF refl]) (rule populate_doc_item [OF assms])

lemma run_query_empty:
  "items_of s (id' (params ctx)) = [] \<Longrightarrow> run_query s (GET_query ctx) = []"
  by (simp add: run_query_items_of)

lemma find_owner_id: "find_owner s i = Some owner \<Longrightarrow> field ''_id'' owner = Some (JStr i)"
  by (auto simp: find_owner_def find_Some_iff)

lemma populate_doc_isConnected:
  "populate_doc (s\<lparr>isConnected := b\<rparr>) = populate_doc s"
  by (simp add: fun_eq_iff populate_doc_def find_owner_def split: option.split json.split)

lemma run_query_isConnected:
  "run_query (s\<lparr>isConnected := b\<rparr>) q = run_query s q"
  by (simp add: run_query_def populate_doc_isConnected)

lemma GET_db:
  "GET db req ctx s =
     (if \<not> isConnected s \<and> \<not> reachable s then
        (Response ''Failed to create a new prompt'' \<lparr>init_status = 500, init_headers = []\<rparr>, s)
      else if failing s (GET_query ctx) then
        (Response ''Failed to create a new prompt'' \<lparr>init_status = 500, init_headers = []\<rparr>,
         s\<lparr>isConnected := True\<rparr>)
      else
        (Response (stringify (JArr (run_query s (GET_query ctx))))
           \<lparr>init_status = 200, init_headers = []\<rparr>,
         s\<lparr>isConnected := True\<rparr>))"
  by (simp add: GET_def try_block_def db_def db_connectToDB_def db_exec_def
      run_query_isConnected del: stringify.simps)

subsection \<open>The serializer can be read back\<close>

text \<open>Reading undoes writing: the text of a value decodes to that value, so a body
  determines the array it holds, element by element and in order.\<close>

lemma less_16_cases:
  "n < 16 \<Longrightarrow> n \<in> {0, 1, 2, 3, 4, 5, 6, 7, 8, 9, 10, 11, 12, 13, 14, 15 :: nat}"
  by simp arith

lemma hex_value_hex_digit: "n < 16 \<Longrightarrow> hex_value (hex_digit n) = Some n"
  by (drule less_16_cases) (auto simp: hex_value_def hex_digit_def upt_rec)

lemma less_10_cases: "n < 10 \<Longrightarrow> n \<in> {0, 1, 2, 3, 4, 5, 6, 7, 8, 9 :: nat}"
  by simp arith

lemma digit_hex_digit:
  "n < 10 \<Longrightarrow> is_digit (hex_digit n) \<and> (of_char (hex_digit n) :: nat) - 48 = n
     \<and> hex_digit n \<noteq> CHR ''-''"
  by (drule less_10_cases) (auto simp: is_digit_def hex_digit_def)

lemma read_string_escape_char:
  "read_string (escape_char c @ t) = map_option (\<lambda>p. (c # fst p, snd p)) (read_string t)"
proof -
  have small: "(of_char c :: nat) < 0x20 \<Longrightarrow> (of_char c :: nat) div 16 < 16"
    by simp
  have whole: "char_of (16 * ((of_char c :: nat) div 16) + of_char c mod 16) = c"
    by simp
  show ?thesis
    by (simp add: escape_char_def hex_value_hex_digit small whole)
qed

lemma read_string_escaped:
  "read_string (concat (map escape_char str) @ CHR 0x22 # rest) = Some (str, rest)"
  by (induction str) (simp_all add: read_string_escape_char)

lemma read_string_quoted:
  "QuoteJSONString str @ rest = CHR 0x22 # concat (map escape_char str) @ CHR 0x22 # rest"
  by (simp add: QuoteJSONString_def)

lemma read_digits_digits:
  "read_digits acc (digits n @ rest) = read_digits (acc * 10 ^ length (digits n) + n) rest"
proof (induction n arbitrary: acc rest rule: digits.induct)
  case (1 n)
  show ?case
  proof (cases "n < 10")
    case True
    then show ?thesis
      using digit_hex_digit [OF True] by (simp add: digits.simps [of n] mult.commute)
  next
    case False
    have d: "n mod 10 < 10" by simp
    have "read_digits acc (digits n @ rest) =
        read_digits acc (digits (n div 10) @ hex_digit (n mod 10) # rest)"
      using False by (simp add: digits.simps [of n])
    also have "\<dots> = read_digits (acc * 10 ^ length (digits (n div 10)) + n div 10)
        (hex_digit (n mod 10) # rest)"
      using False by (rule "1.IH")
    also have "\<dots> = read_digits (10 * (acc * 10 ^ length (digits (n div 10)) + n div 10)
        + n mod 10) rest"
      using digit_hex_digit [OF d] by simp
    also have "10 * (acc * 10 ^ length (digits (n div 10)) + n div 10) + n mod 10 =
        acc * 10 ^ length (digits n) + n"
      using False by (simp add: digits.simps [of n] algebra_simps)
    finally show ?thesis .
  qed
qed

lemma read_digits_delimited: "delimited rest \<Longrightarrow> read_digits acc rest = (acc, rest)"
  by (cases rest) (simp_all add: delimited_def)

lemma digits_first: "\<exists>c cs. digits n = c # cs \<and> is_digit c \<and> c \<noteq> CHR ''-''"
proof (induction n rule: digits.induct)
  case (1 n)
  show ?case
  proof (cases "n < 10")
    case True
    then show ?thesis
      using digit_hex_digit [OF True] by (simp add: digits.simps [of n])
  next
    case False
    with "1.IH" obtain c cs where "digits (n div 10) = c # cs" "is_digit c" "c \<noteq> CHR ''-''"
      by blast
    with False show ?thesis
      by (simp add: digits.simps [of n])
  qed
qed

lemma digits_leading: "0 < n \<Longrightarrow> \<exists>c cs. digits n = c # cs \<and> c \<noteq> CHR ''0''"
proof (induction n rule: digits.induct)
  case (1 n)
  show ?case
  proof (cases "n < 10")
    case True
    have "hex_digit n \<noteq> CHR ''0''"
      using less_10_cases [OF True] "1.prems" by (auto simp: hex_digit_def)
    with True show ?thesis
      by (simp add: digits.simps [of n])
  next
    case False
    then have "0 < n div 10" by simp
    with False "1.IH" obtain c cs where "digits (n div 10) = c # cs" "c \<noteq> CHR ''0''"
      by blast
    with False show ?thesis
      by (simp add: digits.simps [of n])
  qed
qed

lemma read_natural_digits:
  assumes "delimited rest"
  shows "read_natural (digits n @ rest) = Some (n, rest)"
proof -
  obtain c cs where d: "digits n = c # cs" "is_digit c"
    using digits_first by blast
  have "read_digits 0 (digits n @ rest) = (n, rest)"
    by (simp add: read_digits_digits read_digits_delimited [OF assms])
  then have run: "read_digits 0 (c # cs @ rest) = (n, rest)"
    by (simp add: d)
  have "\<not> (c = CHR ''0'' \<and> (case cs @ rest of [] \<Rightarrow> False | e # _ \<Rightarrow> is_digit e))"
  proof (cases "n < 10")
    case True
    then have "cs = []"
      using d by (simp add: digits.simps [of n])
    then show ?thesis
      using assms by (cases rest) (simp_all add: delimited_def)
  next
    case False
    then have "0 < n" by simp
    then show ?thesis
      using digits_leading [of n] d by auto
  qed
  with d run show ?thesis
    by (simp add: read_natural_def del: read_digits.simps)
qed

lemma read_number_number_text:
  assumes "delimited rest"
  shows "read_number (number_text i @ rest) = Some (i, rest)"
proof (cases "i < 0")
  case True
  then show ?thesis
    by (simp add: read_number_def number_text_def read_natural_digits [OF assms])
next
  case False
  obtain c cs where d: "digits (nat i) = c # cs" "c \<noteq> CHR ''-''"
    using digits_first by blast
  have "read_natural (c # cs @ rest) = Some (nat i, rest)"
    using read_natural_digits [OF assms, of "nat i"] by (simp add: d)
  with False d show ?thesis
    by (simp add: read_number_def number_text_def)
qed

lemma number_text_first:
  "\<exists>c cs. number_text i = c # cs \<and> (c = CHR ''-'' \<or> is_digit c)"
  using digits_first [of "nat i"] by (auto simp: number_text_def)


lemma stringify_first:
  "\<exists>c cs. stringify j = c # cs \<and> c \<noteq> CHR '']'' \<and> c \<noteq> CHR ''}''"
proof (cases j)
  case (JNum i)
  then show ?thesis
    using number_text_first [of i] by (auto simp: is_digit_def)
qed (simp_all add: QuoteJSONString_def)

lemma join_comma_Cons:
  "xs \<noteq> [] \<Longrightarrow> join_comma (x # xs) = x @ CHR '','' # join_comma xs"
  by (cases xs) simp_all

lemma delimited_simps:
  "delimited []" "delimited (CHR '','' # r)" "delimited (CHR '']'' # r)"
  "delimited (CHR ''}'' # r)"
  by (simp_all add: delimited_def is_digit_def)

lemma decode_elements_texts:
  assumes "xs \<noteq> []"
    and "\<forall>x \<in> set xs. \<forall>n rest. length (stringify x) < n \<longrightarrow> delimited rest \<longrightarrow>
           decode_value n (stringify x @ rest) = Some (x, rest)"
    and "length (join_comma (map stringify xs)) + 1 < n"
  shows "decode_elements n (join_comma (map stringify xs) @ CHR '']'' # rest) = Some (xs, rest)"
  using assms
proof (induction xs arbitrary: n rule: list_nonempty_induct)
  case (single x)
  then obtain m where n: "n = Suc m" and m: "length (stringify x) < m"
    by (cases n) auto
  have "decode_value m (stringify x @ CHR '']'' # rest) = Some (x, CHR '']'' # rest)"
    using single.prems(1) m by (simp add: delimited_simps)
  then show ?case
    by (simp add: n)
next
  case (cons x xs)
  then obtain m where n: "n = Suc m"
    by (cases n) auto
  have len: "length (stringify x) < m" "length (join_comma (map stringify xs)) + 1 < m"
    using cons.prems(2) cons.hyps by (simp_all add: n join_comma_Cons)
  have "decode_value m (stringify x @ CHR '','' # join_comma (map stringify xs) @ CHR '']'' # rest)
      = Some (x, CHR '','' # join_comma (map stringify xs) @ CHR '']'' # rest)"
    using cons.prems(1) len(1) by (simp add: delimited_simps)
  moreover have "decode_elements m (join_comma (map stringify xs) @ CHR '']'' # rest)
      = Some (xs, rest)"
    using cons.prems(1) len(2) by (intro cons.IH) simp_all
  ultimately show ?case
    using cons.hyps by (simp add: n join_comma_Cons)
qed

lemma length_member_text:
  "length (member_text kv) =
     length (QuoteJSONString (fst kv)) + 1 + length (stringify (snd kv))"
  by (simp add: member_text_def)

lemma decode_members_member_text:
  "decode_members (Suc m) (member_text kv @ r) =
     (case decode_value m (stringify (snd kv) @ r) of
        None \<Rightarrow> None
      | Some (v, r1) \<Rightarrow>
          (case r1 of
             [] \<Rightarrow> None
           | c # r' \<Rightarrow>
               if c = CHR '','' then
                 map_option (\<lambda>p. ((fst kv, v) # fst p, snd p)) (decode_members m r')
               else if c = CHR ''}'' then Some ([(fst kv, v)], r')
               else None))"
  by (simp add: member_text_def QuoteJSONString_def read_string_escaped strip_prefix_def)

lemma decode_members_texts:
  assumes "kvs \<noteq> []"
    and "\<forall>kv \<in> set kvs. \<forall>n rest. length (stringify (snd kv)) < n \<longrightarrow> delimited rest \<longrightarrow>
           decode_value n (stringify (snd kv) @ rest) = Some (snd kv, rest)"
    and "length (join_comma (map member_text kvs)) + 1 < n"
  shows "decode_members n (join_comma (map member_text kvs) @ CHR ''}'' # rest) = Some (kvs, rest)"
  using assms
proof (induction kvs arbitrary: n rule: list_nonempty_induct)
  case (single kv)
  then obtain m where n: "n = Suc m" and m: "length (stringify (snd kv)) < m"
    by (cases n) (auto simp: length_member_text)
  have "decode_value m (stringify (snd kv) @ CHR ''}'' # rest) = Some (snd kv, CHR ''}'' # rest)"
    using single.prems(1) m by (simp add: delimited_simps)
  then show ?case
    by (simp add: n decode_members_member_text del: decode_members.simps)
next
  case (cons kv kvs)
  then obtain m where n: "n = Suc m"
    by (cases n) auto
  have len: "length (stringify (snd kv)) < m" "length (join_comma (map member_text kvs)) + 1 < m"
    using cons.prems(2) cons.hyps by (simp_all add: n join_comma_Cons length_member_text)
  have "decode_value m
        (stringify (snd kv) @ CHR '','' # join_comma (map member_text kvs) @ CHR ''}'' # rest)
      = Some (snd kv, CHR '','' # join_comma (map member_text kvs) @ CHR ''}'' # rest)"
    using cons.prems(1) len(1) by (simp add: delimited_simps)
  moreover have "decode_members m (join_comma (map member_text kvs) @ CHR ''}'' # rest)
      = Some (kvs, rest)"
    using cons.prems(1) len(2) by (intro cons.IH) simp_all
  ultimately show ?case
    using cons.hyps
    by (simp add: n join_comma_Cons decode_members_member_text del: decode_members.simps)
qed

lemma decode_value_stringify:
  "length (stringify j) < n \<Longrightarrow> delimited rest \<Longrightarrow>
   decode_value n (stringify j @ rest) = Some (j, rest)"
proof (induction j arbitrary: n rest)
  case JNull
  then obtain m where "n = Suc m" by (cases n) auto
  then show ?case by (simp add: is_digit_def strip_prefix_def)
next
  case (JBool b)
  then obtain m where "n = Suc m" by (cases n) auto
  then show ?case by (simp add: is_digit_def strip_prefix_def)
next
  case (JNum i)
  then obtain m where n: "n = Suc m" by (cases n) auto
  obtain c cs where c: "number_text i = c # cs" "c = CHR ''-'' \<or> is_digit c"
    using number_text_first by blast
  have "read_number (c # cs @ rest) = Some (i, rest)"
    using read_number_number_text [OF JNum.prems(2), of i] by (simp add: c)
  with c show ?case by (simp add: n)
next
  case (JStr str)
  then obtain m where "n = Suc m" by (cases n) auto
  then show ?case
    by (simp add: is_digit_def QuoteJSONString_def read_string_escaped)
next
  case (JArr xs)
  then obtain m where n: "n = Suc m" by (cases n) auto
  show ?case
  proof (cases "xs = []")
    case True
    then show ?thesis by (simp add: n is_digit_def strip_prefix_def)
  next
    case False
    then obtain y ys where xs: "xs = y # ys" by (cases xs) auto
    obtain c cs where c: "stringify y = c # cs" "c \<noteq> CHR '']''"
      using stringify_first by blast
    have first: "strip_prefix '']'' (join_comma (map stringify xs) @ CHR '']'' # rest) = None"
      by (cases ys) (simp_all add: xs c strip_prefix_def)
    have "decode_elements m (join_comma (map stringify xs) @ CHR '']'' # rest) = Some (xs, rest)"
    proof (rule decode_elements_texts [OF False])
      show "\<forall>x \<in> set xs. \<forall>n rest. length (stringify x) < n \<longrightarrow> delimited rest \<longrightarrow>
           decode_value n (stringify x @ rest) = Some (x, rest)"
        using JArr.IH by blast
      show "length (join_comma (map stringify xs)) + 1 < m"
        using JArr.prems(1) by (simp add: n)
    qed
    with first show ?thesis by (simp add: n is_digit_def)
  qed
next
  case (JObj kvs)
  then obtain m where n: "n = Suc m" by (cases n) auto
  have shape: "stringify (JObj kvs) = CHR ''{'' # join_comma (map member_text kvs) @ ''}''"
    by (simp add: member_text_def [abs_def])
  show ?case
  proof (cases "kvs = []")
    case True
    then show ?thesis by (simp add: n is_digit_def strip_prefix_def)
  next
    case False
    then obtain y ys where kvs: "kvs = y # ys" by (cases kvs) auto
    have first: "strip_prefix ''}'' (join_comma (map member_text kvs) @ CHR ''}'' # rest) = None"
      by (cases ys) (simp_all add: kvs member_text_def QuoteJSONString_def strip_prefix_def)
    have "decode_members m (join_comma (map member_text kvs) @ CHR ''}'' # rest) = Some (kvs, rest)"
    proof (rule decode_members_texts [OF False])
      show "\<forall>kv \<in> set kvs. \<forall>n rest. length (stringify (snd kv)) < n \<longrightarrow> delimited rest \<longrightarrow>
           decode_value n (stringify (snd kv) @ rest) = Some (snd kv, rest)"
      proof (intro ballI allI impI)
        fix kv n rest
        assume mem: "kv \<in> set kvs" and len: "length (stringify (snd kv)) < n"
          and del: "delimited rest"
        have "snd kv \<in> Basic_BNFs.snds kv"
          by (cases kv) simp
        then show "decode_value n (stringify (snd kv) @ rest) = Some (snd kv, rest)"
          using len del by (rule JObj.IH [OF mem])
      qed
      show "length (join_comma (map member_text kvs)) + 1 < m"
        using JObj.prems(1) by (simp add: n shape del: stringify.simps)
    qed
    with first show ?thesis by (simp add: n shape is_digit_def del: stringify.simps)
  qed
qed

lemma decode_stringify: "decode (stringify j) = Some j"
  using decode_value_stringify [of j "Suc (length (stringify j))" "[]"]
  by (simp add: decode_def delimited_simps)

subsection \<open>Claims about the store's contents\<close>

text \<open>
  Claim C1. For every Owner identifier \<open>id\<close> (an identifier that the store resolves to
  an Owner) with N matching Items in the store, the handler, when the connection can be
  ensured and the store runs the query, returns status 200 with a body that is the JSON
  text of an array of exactly N elements: the body decodes to an array of N elements,
  the matching Items in the store's order, each with its \<open>creator\<close> field replaced by
  the Owner document whose \<open>_id\<close> is \<open>id\<close>.
\<close>

theorem GET_returns_populated_items:
  assumes owner: "find_owner s (id' (params ctx)) = Some owner"
    and conn: "isConnected s \<or> reachable s"
    and ok: "\<not> failing s (GET_query ctx)"
  shows "status (fst (GET db req ctx s)) = 200
     \<and> (\<exists>elems. decode (body (fst (GET db req ctx s))) = Some (JArr elems)
           \<and> length elems = length (items_of s (id' (params ctx)))
           \<and> (\<forall>e \<in> set elems. field ''creator'' e = Some owner)
           \<and> elems = map (set_field ''creator'' owner) (items_of s (id' (params ctx))))
     \<and> body (fst (GET db req ctx s)) =
         stringify (JArr (map (set_field ''creator'' owner) (items_of s (id' (params ctx)))))
     \<and> length (map (set_field ''creator'' owner) (items_of s (id' (params ctx)))) =
         length (items_of s (id' (params ctx)))
     \<and> (\<forall>e \<in> set (map (set_field ''creator'' owner) (items_of s (id' (params ctx)))).
           field ''creator'' e = Some owner)
     \<and> field ''_id'' owner = Some (JStr (id' (params ctx)))"
proof -
  let ?elems = "map (set_field ''creator'' owner) (items_of s (id' (params ctx)))"
  have "field ''creator'' (set_field ''creator'' owner d) = Some owner"
    if "d \<in> set (items_of s (id' (params ctx)))" for d
    using that by (auto simp: items_of_def intro: field_set_field)
  then have populated: "\<forall>e \<in> set ?elems. field ''creator'' e = Some owner"
    by auto
  have ok200: "status (fst (GET db req ctx s)) = 200"
    using conn ok by (auto simp: GET_db Response_def)
  have written: "body (fst (GET db req ctx s)) = stringify (JArr ?elems)"
    using conn ok by (auto simp: GET_db Response_def run_query_GET_query [OF owner]
        simp del: stringify.simps)
  have "decode (body (fst (GET db req ctx s))) = Some (JArr ?elems)"
    unfolding written by (rule decode_stringify)
  with populated have "\<exists>elems. decode (body (fst (GET db req ctx s))) = Some (JArr elems)
           \<and> length elems = length (items_of s (id' (params ctx)))
           \<and> (\<forall>e \<in> set elems. field ''creator'' e = Some owner)
           \<and> elems = ?elems"
    by simp
  with populated ok200 written show ?thesis
    using find_owner_id [OF owner] by simp
qed

text \<open>The spec's example scenario: \<open>u1\<close> has two Items, and the body is the text of
  the two, each with Alice's document as its \<open>creator\<close>.\<close>

theorem GET_returns_populated_items_witness:
  \<open>find_owner example_store (id' (params context_u1)) = Some alice
   \<and> (isConnected example_store \<or> reachable example_store)
   \<and> \<not> failing example_store (GET_query context_u1)
   \<and> length (items_of example_store (id' (params context_u1))) = 2
   \<and> status (fst (GET db example_request context_u1 example_store)) = 200
   \<and> body (fst (GET db example_request context_u1 example_store)) =
       ''[{"_id":"p1","creator":{"_id":"u1","name":"Alice"},"content":"hi"},{"_id":"p2","creator":{"_id":"u1","name":"Alice"},"content":"yo"}]''
   \<and> decode (body (fst (GET db example_request context_u1 example_store))) =
       Some (JArr
         [JObj [(''_id'', JStr ''p1''),
                (''creator'', JObj [(''_id'', JStr ''u1''), (''name'', JStr ''Alice'')]),
                (''content'', JStr ''hi'')],
          JObj [(''_id'', JStr ''p2''),
                (''creator'', JObj [(''_id'', JStr ''u1''), (''name'', JStr ''Alice'')]),
                (''content'', JStr ''yo'')]])\<close>
proof -
  have owner: "find_owner example_store (id' (params context_u1)) = Some alice"
    by (simp add: find_owner_def example_store_def context_u1_def alice_def)
  have conn: "isConnected example_store \<or> reachable example_store"
    by (simp add: example_store_def)
  have ok: "\<not> failing example_store (GET_query context_u1)"
    by (simp add: example_store_def)
  have items: "items_of example_store (id' (params context_u1)) =
      [JObj [(''_id'', JStr ''p1''), (''creator'', JStr ''u1''), (''content'', JStr ''hi'')],
       JObj [(''_id'', JStr ''p2''), (''creator'', JStr ''u1''), (''content'', JStr ''yo'')]]"
    by (simp add: items_of_def example_store_def context_u1_def)
  have len: "length (items_of example_store (id' (params context_u1))) = 2"
    by (simp add: items)
  let ?elems = "[JObj [(''_id'', JStr ''p1''),
                (''creator'', JObj [(''_id'', JStr ''u1''), (''name'', JStr ''Alice'')]),
                (''content'', JStr ''hi'')],
          JObj [(''_id'', JStr ''p2''),
                (''creator'', JObj [(''_id'', JStr ''u1''), (''name'', JStr ''Alice'')]),
                (''content'', JStr ''yo'')]]"
  have elems: "map (set_field ''creator'' alice) (items_of example_store (id' (params context_u1)))
      = ?elems"
    by (simp add: items alice_def)
  note main = GET_returns_populated_items [OF owner conn ok, of example_request]
  have st: "status (fst (GET db example_request context_u1 example_store)) = 200"
    using main by blast
  have dec: "decode (body (fst (GET db example_request context_u1 example_store))) =
      Some (JArr ?elems)"
    using main unfolding elems by blast
  have "body (fst (GET db example_request context_u1 example_store)) = stringify (JArr ?elems)"
    using main unfolding elems by blast
  then have lit: \<open>body (fst (GET db example_request context_u1 example_store)) =
       ''[{"_id":"p1","creator":{"_id":"u1","name":"Alice"},"content":"hi"},{"_id":"p2","creator":{"_id":"u1","name":"Alice"},"content":"yo"}]''\<close>
    by (simp add: QuoteJSONString_def escape_char_def)
  show ?thesis
    by (intro conjI owner conn ok len st lit dec)
qed

text \<open>
  Claim C3. For every identifier \<open>id\<close> with zero matching Items in the store, the
  handler, when the connection can be ensured and the store runs the query, returns
  status 200 with the empty JSON array \<open>[]\<close> as its body, not the error response.
\<close>

theorem GET_no_items_empty_array:
  assumes none: "items_of s (id' (params ctx)) = []"
    and conn: "isConnected s \<or> reachable s"
    and ok: "\<not> failing s (GET_query ctx)"
  shows "fst (GET db req ctx s) =
           \<lparr>body = ''[]'', status = 200,
            headers = [(''content-type'', ''text/plain;charset=UTF-8'')]\<rparr>"
  using conn ok by (auto simp: GET_db Response_def run_query_empty [OF none])

theorem GET_no_items_empty_array_witness:
  "items_of example_store (id' (params context_u3)) = []
   \<and> (isConnected example_store \<or> reachable example_store)
   \<and> \<not> failing example_store (GET_query context_u3)
   \<and> fst (GET db example_request context_u3 example_store) =
        \<lparr>body = ''[]'', status = 200,
         headers = [(''content-type'', ''text/plain;charset=UTF-8'')]\<rparr>"
proof -
  have none: "items_of example_store (id' (params context_u3)) = []"
    by (simp add: items_of_def example_store_def context_u3_def)
  have conn: "isConnected example_store \<or> reachable example_store"
    by (simp add: example_store_def)
  have ok: "\<not> failing example_store (GET_query context_u3)"
    by (simp add: example_store_def)
  show ?thesis
    using GET_no_items_empty_array [OF none conn ok, of example_request] none conn ok
    by simp
qed

text \<open>
  Claim C5. The handler is deterministic with respect to the store: a second invocation
  with the same request and the same \<open>id\<close>, run against the store as the first
  invocation left it, returns the same response, and so the same body.
\<close>

theorem GET_repeatable:
  "fst (GET db req ctx (snd (GET db req ctx s))) = fst (GET db req ctx s)
   \<and> body (fst (GET db req ctx (snd (GET db req ctx s)))) = body (fst (GET db req ctx s))"
  by (simp add: GET_db run_query_isConnected del: stringify.simps)

text \<open>
  Claim C6. Every invocation leaves the document store unchanged. The only effects
  are those of \<open>connectToDB\<close> and of the awaited query, the handler adding none of its
  own; over the document store the state after the handler is the state before it,
  but for the connection, which is live afterwards whenever it was live or could be
  established; and invoking the handler again changes nothing more.
\<close>

theorem GET_leaves_store_unchanged:
  "snd (GET P req ctx s0) =
     (case connectToDB P s0 of
        (Inl e, s1) \<Rightarrow> s1
      | (Inr u, s1) \<Rightarrow> snd (exec P (GET_query ctx) s1))
   \<and> snd (GET db req ctx s) = s\<lparr>isConnected := isConnected s \<or> reachable s\<rparr>
   \<and> snd (GET db req' ctx' (snd (GET db req ctx s))) = snd (GET db req ctx s)"
proof (intro conjI)
  show "snd (GET P req ctx s0) =
     (case connectToDB P s0 of
        (Inl e, s1) \<Rightarrow> s1
      | (Inr u, s1) \<Rightarrow> snd (exec P (GET_query ctx) s1))"
    by (simp add: GET_def try_block_def split: prod.split sum.split)
  show "snd (GET db req ctx s) = s\<lparr>isConnected := isConnected s \<or> reachable s\<rparr>"
    by (simp add: GET_db)
  show "snd (GET db req' ctx' (snd (GET db req ctx s))) = snd (GET db req ctx s)"
    by (simp add: GET_db)
qed

section \<open>The query the handler sends\<close>

text \<open>
  Claim C7. The serialized JSON array preserves exactly the order in which the awaited
  query returns the matching Items: with the platform's serializer, the body decodes
  to the array of the returned documents, element by element in the order returned,
  and is the bracketed, comma-separated sequence of their texts in that order. The
  handler sorts and reorders nothing.
\<close>

theorem GET_keeps_store_order:
  assumes "connectToDB P s = (Inr u, s1)"
    and "exec P (GET_query ctx) s1 = (Inr docs, s2)"
    and "JSON_stringify P (JArr docs) = Inr (stringify (JArr docs))"
  shows "decode (body (fst (GET P req ctx s))) = Some (JArr docs)
     \<and> body (fst (GET P req ctx s)) = ''['' @ join_comma (map stringify docs) @ '']''"
proof -
  have written: "body (fst (GET P req ctx s)) = stringify (JArr docs)"
    using assms by (simp add: GET_def try_block_def Response_def del: stringify.simps)
  have "decode (body (fst (GET P req ctx s))) = Some (JArr docs)"
    unfolding written by (rule decode_stringify)
  with written show ?thesis
    by simp
qed

text \<open>On the example store the body lists \<open>p1\<close> before \<open>p2\<close>; on the store that
  returns its Items in the opposite order the body lists \<open>p2\<close> before \<open>p1\<close>.\<close>

theorem GET_keeps_store_order_witness:
  \<open>body (fst (GET db example_request context_u1 example_store)) =
     ''[{"_id":"p1","creator":{"_id":"u1","name":"Alice"},"content":"hi"},{"_id":"p2","creator":{"_id":"u1","name":"Alice"},"content":"yo"}]''
   \<and> body (fst (GET db example_request context_u1 reversed_store)) =
     ''[{"_id":"p2","creator":{"_id":"u1","name":"Alice"},"content":"yo"},{"_id":"p1","creator":{"_id":"u1","name":"Alice"},"content":"hi"}]''
   \<and> decode (body (fst (GET db example_request context_u1 reversed_store))) =
       Some (JArr
         [JObj [(''_id'', JStr ''p2''), (''creator'', alice), (''content'', JStr ''yo'')],
          JObj [(''_id'', JStr ''p1''), (''creator'', alice), (''content'', JStr ''hi'')]])\<close>
proof -
  let ?p1 = "JObj [(''_id'', JStr ''p1''), (''creator'', alice), (''content'', JStr ''hi'')]"
  let ?p2 = "JObj [(''_id'', JStr ''p2''), (''creator'', alice), (''content'', JStr ''yo'')]"
  let ?s1 = "example_store\<lparr>isConnected := True\<rparr>"
  let ?r1 = "reversed_store\<lparr>isConnected := True\<rparr>"
  have c: "connectToDB db example_store = (Inr (), ?s1)"
    by (simp add: db_def db_connectToDB_def example_store_def)
  have q: "exec db (GET_query context_u1) ?s1 = (Inr [?p1, ?p2], ?s1)"
    by (simp add: db_def db_exec_def run_query_def GET_query_eq matches_def populate_doc_def
        find_owner_def example_store_def context_u1_def alice_def)
  have j: "JSON_stringify db (JArr [?p1, ?p2]) = Inr (stringify (JArr [?p1, ?p2]))"
    by (simp add: db_def)
  have c': "connectToDB db reversed_store = (Inr (), ?r1)"
    by (simp add: db_def db_connectToDB_def reversed_store_def example_store_def)
  have q': "exec db (GET_query context_u1) ?r1 = (Inr [?p2, ?p1], ?r1)"
    by (simp add: db_def db_exec_def run_query_def GET_query_eq matches_def populate_doc_def
        find_owner_def reversed_store_def example_store_def context_u1_def alice_def)
  have j': "JSON_stringify db (JArr [?p2, ?p1]) = Inr (stringify (JArr [?p2, ?p1]))"
    by (simp add: db_def)
  have \<open>body (fst (GET db example_request context_u1 example_store)) =
     ''[{"_id":"p1","creator":{"_id":"u1","name":"Alice"},"content":"hi"},{"_id":"p2","creator":{"_id":"u1","name":"Alice"},"content":"yo"}]''\<close>
    using GET_keeps_store_order [OF c q j, of example_request]
    by (simp add: alice_def QuoteJSONString_def escape_char_def)
  moreover have \<open>body (fst (GET db example_request context_u1 reversed_store)) =
     ''[{"_id":"p2","creator":{"_id":"u1","name":"Alice"},"content":"yo"},{"_id":"p1","creator":{"_id":"u1","name":"Alice"},"content":"hi"}]''\<close>
    using GET_keeps_store_order [OF c' q' j', of example_request]
    by (simp add: alice_def QuoteJSONString_def escape_char_def)
  moreover have "decode (body (fst (GET db example_request context_u1 reversed_store))) =
       Some (JArr [?p2, ?p1])"
    using GET_keeps_store_order [OF c' q' j', of example_request] by blast
  ultimately show ?thesis
    by blast
qed

text \<open>
  Claim C8. For every incoming request the route parameter \<open>id\<close> is used directly and
  unmodified as the equality filter on \<open>creator\<close>: the filter of the query is the pair
  of \<open>creator\<close> and \<open>params.id\<close> itself, and once the connection is ensured that query is
  run whatever the string is, no validation standing between the parameter and the
  store: the state and the response of the handler are those that running the query
  gives.
\<close>

theorem GET_filters_on_id_unmodified:
  assumes "connectToDB P s = (Inr u, s1)"
  shows "conditions (GET_query ctx) = [(''creator'', id' (params ctx))]
     \<and> snd (GET P req ctx s) =
         snd (exec P \<lparr>conditions = [(''creator'', id' (params ctx))],
                      populated = [''creator'']\<rparr> s1)
     \<and> fst (GET P req ctx s) =
         (case fst (exec P \<lparr>conditions = [(''creator'', id' (params ctx))],
                            populated = [''creator'']\<rparr> s1) of
            Inl e \<Rightarrow>
              Response ''Failed to create a new prompt'' \<lparr>init_status = 500, init_headers = []\<rparr>
          | Inr docs \<Rightarrow>
              (case JSON_stringify P (JArr docs) of
                 Inl e \<Rightarrow>
                   Response ''Failed to create a new prompt''
                     \<lparr>init_status = 500, init_headers = []\<rparr>
               | Inr text \<Rightarrow> Response text \<lparr>init_status = 200, init_headers = []\<rparr>))"
  using assms
  by (simp add: GET_def try_block_def GET_query_eq split: prod.split sum.split)

text \<open>An identifier that is no well-formed key of the store is sent as it is.\<close>

theorem GET_filters_on_id_unmodified_witness:
  "conditions (GET_query \<lparr>params = \<lparr>id' = ''not an id!''\<rparr>\<rparr>) = [(''creator'', ''not an id!'')]
   \<and> fst (GET db example_request \<lparr>params = \<lparr>id' = ''not an id!''\<rparr>\<rparr> example_store) =
       Response ''[]'' \<lparr>init_status = 200, init_headers = []\<rparr>"
proof -
  have c: "connectToDB db example_store = (Inr (), example_store\<lparr>isConnected := True\<rparr>)"
    by (simp add: db_def db_connectToDB_def example_store_def)
  show ?thesis
    using GET_filters_on_id_unmodified [OF c, of "\<lparr>params = \<lparr>id' = ''not an id!''\<rparr>\<rparr>" example_request]
    by (simp add: db_def db_exec_def run_query_def matches_def example_store_def)
qed

end
